theory Spec2Isabelle
  imports Main "HOL-Library.Word"
begin

section \<open>Python strings and pathlib paths\<close>

text \<open>
  A Python \<open>str\<close> is modelled as a \<open>string\<close> holding its UTF-8 encoding. The
  operations the programs use on strings (concatenation, search for an ASCII
  character, slicing from the position of an ASCII character, substring test)
  give the same result on the encoding as on the code points.
\<close>

text \<open>\<open>sep.join(parts)\<close>\<close>

fun join :: "string \<Rightarrow> string list \<Rightarrow> string" where
  "join s [] = []"
| "join s [x] = x"
| "join s (x # y # ys) = x @ s @ join s (y # ys)"

text \<open>\<open>s.rfind(c)\<close>: the highest index of \<open>c\<close> in \<open>s\<close>, or \<open>-1\<close>.\<close>

fun rfind :: "char \<Rightarrow> string \<Rightarrow> int" where
  "rfind c [] = -1"
| "rfind c (x # xs) =
     (let r = rfind c xs in if 0 \<le> r then r + 1 else if x = c then 0 else -1)"

text \<open>\<open>s.replace(old, new)\<close> for one-character \<open>old\<close> and \<open>new\<close>.\<close>

definition replace :: "char \<Rightarrow> char \<Rightarrow> string \<Rightarrow> string" where
  "replace old new s = map (\<lambda>c. if c = old then new else c) s"

text \<open>\<open>s.startswith(t)\<close> on lists, and \<open>needle in hay\<close> on strings.\<close>

fun startswith :: "'a list \<Rightarrow> 'a list \<Rightarrow> bool" where
  "startswith xs [] = True"
| "startswith [] (y # ys) = False"
| "startswith (x # xs) (y # ys) = (x = y \<and> startswith xs ys)"


text \<open>
  The two path flavours of pathlib differ, for these programs, in the separator
  that \<open>str\<close> puts between the components.
\<close>

datatype flavour = PosixFlavour | WindowsFlavour

fun sep :: "flavour \<Rightarrow> char" where
  "sep PosixFlavour = CHR ''/''"
| "sep WindowsFlavour = CHR 0x5C"

text \<open>
  A path is the list of its components below the anchor (drive and root); the
  anchor itself is a string kept beside it. A relative path has the empty anchor.
\<close>

type_synonym path = "string list"

text \<open>\<open>str(path)\<close>: the anchor, then the components joined by the separator; \<open>.\<close> for the empty path.\<close>

definition str_path :: "flavour \<Rightarrow> string \<Rightarrow> path \<Rightarrow> string" where
  "str_path fl anc p = (if anc = [] \<and> p = [] then ''.'' else anc @ join [sep fl] p)"

text \<open>\<open>path.as_posix()\<close> is \<open>str(path).replace(sep, '/')\<close>; it is only called on relative paths.\<close>

definition as_posix :: "flavour \<Rightarrow> path \<Rightarrow> string" where
  "as_posix fl p = replace (sep fl) (CHR ''/'') (str_path fl [] p)"

text \<open>\<open>path.name\<close>: the last component, or the empty string.\<close>

definition name :: "path \<Rightarrow> string" where
  "name p = (if p = [] then [] else last p)"

text \<open>
  \<open>path.suffix\<close>, by the rule of pathlib in CPython 3.11
  (\<open>i = name.rfind('.')\<close>, then \<open>name[i:]\<close> if \<open>0 < i < len(name) - 1\<close>, else the
  empty string): the part of the name from its last dot, when that dot is neither
  the first nor the last character of the name.
\<close>

definition suffix :: "path \<Rightarrow> string" where
  "suffix p =
     (let nm = name p; i = rfind (CHR ''.'') nm
      in if 0 < i \<and> i < int (length nm) - 1 then drop (nat i) nm else [])"

section \<open>Exceptions, observable events and the environment of a run\<close>

datatype exn =
    SystemExit string
  | SystemExitCode int
  | RuntimeError string
  | ValueError string
  | ClientError string
  | KeyboardInterrupt
  | OSError string
  | OtherException string

text \<open>\<open>path.relative_to(other)\<close> raises ValueError unless \<open>other\<close> is a prefix of \<open>path\<close>.\<close>

definition relative_to :: "path \<Rightarrow> path \<Rightarrow> exn + path" where
  "relative_to p other =
     (if startswith p other then Inr (drop (length other) p)
      else Inl (ValueError ''not in the subpath''))"

text \<open>
  What a run of the publisher does to the outside: lines printed, and the two
  kinds of request sent through boto3 (each with the arguments of the call).
\<close>

datatype event =
    Print string
  | S3UploadFile string string string "(string \<times> string) list"
  | CloudFrontCreateInvalidation string nat "string list" string

fun is_network_call :: "event \<Rightarrow> bool" where
  "is_network_call (Print s) = False"
| "is_network_call (S3UploadFile f b k x) = True"
| "is_network_call (CloudFrontCreateInvalidation d q items r) = True"

fun is_upload :: "event \<Rightarrow> bool" where
  "is_upload (S3UploadFile f b k x) = True"
| "is_upload e = False"

fun is_invalidation :: "event \<Rightarrow> bool" where
  "is_invalidation (CloudFrontCreateInvalidation d q items r) = True"
| "is_invalidation e = False"

text \<open>
  Everything outside the program that a run of \<open>deploy.py\<close> reads: the path
  flavour of the host, the location of the project, the process environment, the
  content of \<open>dist/\<close> as \<open>rglob\<close> reports it (each entry with its path below
  \<open>dist/\<close> and whether it is a directory), and the answers of the remote
  services. \<open>s3_upload_file\<close> answers a call with the exception it raises, if any;
  \<open>cf_create_invalidation\<close> with an exception or the identifier of the new
  invalidation. \<open>urandom n\<close> are the bytes that \<open>os.urandom(n)\<close> returns in the run.
  Creating the boto3 clients sends no request and does not appear.
\<close>

record world =
  flavour :: flavour
  anchor :: string
  PROJECT_ROOT :: path
  environ :: "string \<Rightarrow> string option"
  dist_exists :: bool
  dist_listing :: "(path \<times> bool) list"
  s3_upload_file :: "string \<Rightarrow> string \<Rightarrow> string \<Rightarrow> (string \<times> string) list \<Rightarrow> exn option"
  cf_create_invalidation :: "string \<Rightarrow> nat \<Rightarrow> string list \<Rightarrow> string \<Rightarrow> exn + string"
  urandom :: "nat \<Rightarrow> 8 word list"

section \<open>deploy.py\<close>

definition DIST_DIR :: "path \<Rightarrow> path" where
  "DIST_DIR root = root @ [''dist'']"

text \<open>\<open>DIST_DIR.rglob("*")\<close>: every entry below \<open>dist/\<close>, as a path under \<open>DIST_DIR\<close>.\<close>

definition rglob :: "world \<Rightarrow> (path \<times> bool) list" where
  "rglob w = map (\<lambda>(rel, d). (DIST_DIR (PROJECT_ROOT w) @ rel, d)) (dist_listing w)"

definition key :: "flavour \<Rightarrow> string \<Rightarrow> path \<Rightarrow> string" where
  "key fl prefix rel = (if prefix \<noteq> [] then prefix @ as_posix fl rel else as_posix fl rel)"

definition extra_args :: "path \<Rightarrow> (string \<times> string) list" where
  "extra_args p =
     (if suffix p = ''.html'' then [(''ContentType'', ''text/html; charset=utf-8'')]
      else if suffix p = ''.css'' then [(''ContentType'', ''text/css; charset=utf-8'')]
      else if suffix p = ''.js'' then [(''ContentType'', ''application/javascript; charset=utf-8'')]
      else [])"

text \<open>
  The handler of the \<open>try\<close> around the upload: a ClientError is replaced by a
  RuntimeError naming the source path and the key; no other exception is caught.
\<close>

definition upload_except :: "string \<Rightarrow> string \<Rightarrow> exn \<Rightarrow> exn" where
  "upload_except src k e =
     (case e of
        ClientError m \<Rightarrow> RuntimeError (''Failed to upload '' @ src @ '' -> '' @ k @ '': '' @ m)
      | _ \<Rightarrow> e)"

text \<open>
  The body of the loop for one entry that is not a directory: the upload call, then
  the line printed on success, or the exception that leaves the loop.
\<close>

definition upload_path :: "world \<Rightarrow> string \<Rightarrow> string \<Rightarrow> path \<Rightarrow> event list \<times> exn option" where
  "upload_path w bucket_name prefix p =
     (case relative_to p (DIST_DIR (PROJECT_ROOT w)) of
        Inl e \<Rightarrow> ([], Some e)
      | Inr rel \<Rightarrow>
          let k = key (flavour w) prefix rel;
              src = str_path (flavour w) (anchor w) p;
              call = S3UploadFile src bucket_name k (extra_args p)
          in (case s3_upload_file w src bucket_name k (extra_args p) of
                None \<Rightarrow> ([call, Print (''Uploaded s3://'' @ bucket_name @ ''/'' @ k)], None)
              | Some e \<Rightarrow> ([call], Some (upload_except src k e))))"

fun upload_loop :: "world \<Rightarrow> string \<Rightarrow> string \<Rightarrow> (path \<times> bool) list \<Rightarrow> event list \<times> exn option" where
  "upload_loop w bucket_name prefix [] = ([], None)"
| "upload_loop w bucket_name prefix ((p, is_dir) # rest) =
     (if is_dir then upload_loop w bucket_name prefix rest
      else (case upload_path w bucket_name prefix p of
              (t, Some e) \<Rightarrow> (t, Some e)
            | (t, None) \<Rightarrow>
                (case upload_loop w bucket_name prefix rest of (t', r) \<Rightarrow> (t @ t', r))))"

definition upload_directory_to_s3 :: "world \<Rightarrow> string \<Rightarrow> string \<Rightarrow> event list \<times> exn option" where
  "upload_directory_to_s3 w bucket_name prefix = upload_loop w bucket_name prefix (rglob w)"

text \<open>\<open>bytes.hex()\<close>: two lower-case hexadecimal digits for each byte.\<close>

definition hexdigit :: "nat \<Rightarrow> char" where
  "hexdigit n = ''0123456789abcdef'' ! n"

definition hex :: "8 word list \<Rightarrow> string" where
  "hex bs = concat (map (\<lambda>b. [hexdigit (unat b div 16), hexdigit (unat b mod 16)]) bs)"

text \<open>The handler of the \<open>try\<close> around the invalidation request.\<close>

definition invalidation_except :: "exn \<Rightarrow> exn" where
  "invalidation_except e =
     (case e of
        ClientError m \<Rightarrow> RuntimeError (''Failed to create invalidation: '' @ m)
      | _ \<Rightarrow> e)"

definition invalidate_cloudfront :: "world \<Rightarrow> string option \<Rightarrow> event list \<times> exn option" where
  "invalidate_cloudfront w distribution_id =
     (case distribution_id of
        None \<Rightarrow> ([], None)
      | Some d \<Rightarrow>
          if d = [] then ([], None)
          else
            let ref = ''endodoncia-'' @ hex (urandom w 8);
                call = CloudFrontCreateInvalidation d 1 [''/*''] ref
            in (case cf_create_invalidation w d 1 [''/*''] ref of
                  Inr inv_id \<Rightarrow> ([call, Print (''Invalidation created: '' @ inv_id)], None)
                | Inl e \<Rightarrow> ([call], Some (invalidation_except e))))"

definition main :: "world \<Rightarrow> event list \<times> exn option" where
  "main w =
     (case environ w ''AWS_S3_BUCKET'' of
        None \<Rightarrow> ([], Some (SystemExit ''AWS_S3_BUCKET environment variable is required''))
      | Some bucket \<Rightarrow>
          if bucket = [] then
            ([], Some (SystemExit ''AWS_S3_BUCKET environment variable is required''))
          else
            let prefix = (case environ w ''AWS_S3_PREFIX'' of None \<Rightarrow> [] | Some p \<Rightarrow> p);
                distribution_id = environ w ''CLOUDFRONT_DIST_ID''
            in if \<not> dist_exists w then
                 ([], Some (SystemExit ''dist/ not found. Run `uv run build-site` first.''))
               else
                 (case upload_directory_to_s3 w bucket prefix of
                    (t, Some e) \<Rightarrow> (t, Some e)
                  | (t, None) \<Rightarrow>
                      (case invalidate_cloudfront w distribution_id of
                         (t', r) \<Rightarrow> (t @ t', r))))"

section \<open>Notions used to state the properties of deploy.py\<close>

text \<open>
  A path below \<open>dist/\<close> as a file system can hold it: it has a component, and no
  component contains the separator of the host.
\<close>

definition wf_rel :: "flavour \<Rightarrow> path \<Rightarrow> bool" where
  "wf_rel fl rel = (rel \<noteq> [] \<and> (\<forall>c\<in>set rel. sep fl \<notin> set c))"

definition wf_listing :: "world \<Rightarrow> bool" where
  "wf_listing w = (\<forall>(rel, d)\<in>set (dist_listing w). wf_rel (flavour w) rel)"

text \<open>Lower case of the ASCII letters, to compare extensions up to letter case.\<close>

definition lower_char :: "char \<Rightarrow> char" where
  "lower_char c =
     (case map_of (zip ''ABCDEFGHIJKLMNOPQRSTUVWXYZ'' ''abcdefghijklmnopqrstuvwxyz'') c of
        None \<Rightarrow> c
      | Some l \<Rightarrow> l)"

definition ascii_lower :: "string \<Rightarrow> string" where
  "ascii_lower s = map lower_char s"

text \<open>
  The source path handed to the upload of the file at \<open>rel\<close> below \<open>dist/\<close>, the
  upload call made for it, the line printed after it, and the prefix read from the
  environment.
\<close>

abbreviation source_path :: "world \<Rightarrow> path \<Rightarrow> string" where
  "source_path w rel \<equiv> str_path (flavour w) (anchor w) (DIST_DIR (PROJECT_ROOT w) @ rel)"

abbreviation upload_call :: "world \<Rightarrow> string \<Rightarrow> string \<Rightarrow> path \<Rightarrow> event" where
  "upload_call w bucket prefix rel \<equiv>
     S3UploadFile (source_path w rel) bucket (key (flavour w) prefix rel)
       (extra_args (DIST_DIR (PROJECT_ROOT w) @ rel))"

abbreviation uploaded_line :: "world \<Rightarrow> string \<Rightarrow> string \<Rightarrow> path \<Rightarrow> event" where
  "uploaded_line w bucket prefix rel \<equiv>
     Print (''Uploaded s3://'' @ bucket @ ''/'' @ key (flavour w) prefix rel)"

abbreviation env_prefix :: "world \<Rightarrow> string" where
  "env_prefix w \<equiv> (case environ w ''AWS_S3_PREFIX'' of None \<Rightarrow> [] | Some p \<Rightarrow> p)"

abbreviation caller_reference :: "world \<Rightarrow> string" where
  "caller_reference w \<equiv> ''endodoncia-'' @ hex (urandom w 8)"

subsection \<open>Concrete runs\<close>

definition site_listing :: "(path \<times> bool) list" where
  "site_listing =
     [([''a''], True), ([''a'', ''b.html''], False), ([''styles.css''], False),
      ([''app.js''], False), ([''data.json''], False), ([''PAGE.HTML''], False)]"

text \<open>A POSIX host on which every request succeeds.\<close>

definition site_world :: world where
  "site_world =
     \<lparr>flavour = PosixFlavour, anchor = ''/'',
      PROJECT_ROOT = [''srv'', ''site''],
      environ = [''AWS_S3_BUCKET'' \<mapsto> ''bkt'', ''AWS_S3_PREFIX'' \<mapsto> ''site/'',
                 ''CLOUDFRONT_DIST_ID'' \<mapsto> ''E123''],
      dist_exists = True,
      dist_listing = site_listing,
      s3_upload_file = (\<lambda>f b k x. None),
      cf_create_invalidation = (\<lambda>d q items r. Inr ''I42''),
      urandom = (\<lambda>n. take n [0xDE, 0xAD, 0xBE, 0xEF, 0x00, 0x01, 0x7F, 0x80, 0xFF])\<rparr>"

text \<open>The same site on a Windows host.\<close>

definition windows_world :: world where
  "windows_world = site_world\<lparr>flavour := WindowsFlavour, anchor := [CHR ''C'', CHR '':'', CHR 0x5C]\<rparr>"

text \<open>Runs with a missing bucket name, and with a missing \<open>dist/\<close>.\<close>

definition no_bucket_world :: world where
  "no_bucket_world = site_world\<lparr>environ := Map.empty\<rparr>"

definition no_dist_world :: world where
  "no_dist_world = site_world\<lparr>dist_exists := False\<rparr>"

text \<open>A run without a distribution identifier.\<close>

definition no_cdn_world :: world where
  "no_cdn_world = site_world\<lparr>environ := [''AWS_S3_BUCKET'' \<mapsto> ''bkt'']\<rparr>"

text \<open>The upload of \<open>styles.css\<close> is refused by the service with a ClientError.\<close>

definition upload_refused_world :: world where
  "upload_refused_world =
     site_world\<lparr>s3_upload_file :=
       (\<lambda>f b k x. if k = ''site/styles.css'' then Some (ClientError ''AccessDenied'') else None)\<rparr>"

text \<open>
  The upload of \<open>styles.css\<close> fails with the exception that \<open>upload_file\<close> of
  boto3 raises for a failed transfer, its S3UploadFailedError (named here by its
  class), which is not a ClientError.
\<close>

definition transfer_error_world :: world where
  "transfer_error_world =
     site_world\<lparr>s3_upload_file :=
       (\<lambda>f b k x. if k = ''site/styles.css'' then Some (OtherException ''S3UploadFailedError'') else None)\<rparr>"

text \<open>The invalidation request is refused with a ClientError, or fails before it is answered.\<close>

definition cdn_refused_world :: world where
  "cdn_refused_world =
     site_world\<lparr>cf_create_invalidation := (\<lambda>d q items r. Inl (ClientError ''NoSuchDistribution''))\<rparr>"

definition cdn_unreachable_world :: world where
  "cdn_unreachable_world =
     site_world\<lparr>cf_create_invalidation := (\<lambda>d q items r. Inl (OtherException ''EndpointConnectionError''))\<rparr>"

section \<open>serve.py\<close>





















subsection \<open>Concrete runs of the preview server\<close>




section \<open>Properties of the path operations\<close>

lemma startswith_append: "startswith (xs @ ys) xs"
  by (induction xs) auto

lemma startswith_iff: "startswith xs ys \<longleftrightarrow> (\<exists>zs. xs = ys @ zs)"
  by (induction xs ys rule: startswith.induct) auto

lemma relative_to_append: "relative_to (d @ rel) d = Inr rel"
  by (simp add: relative_to_def startswith_append)

lemma replace_append: "replace a b (xs @ ys) = replace a b xs @ replace a b ys"
  by (simp add: replace_def)

lemma replace_absent: "a \<notin> set xs \<Longrightarrow> replace a b xs = xs"
  by (induction xs) (auto simp: replace_def)

lemma replace_join:
  "\<forall>c\<in>set ps. a \<notin> set c \<Longrightarrow> replace a b (join [a] ps) = join [b] ps"
proof (induction "[a]" ps rule: join.induct)
  case 1
  then show ?case by (simp add: replace_def)
next
  case (2 x)
  then show ?case by (simp add: replace_absent)
next
  case (3 x y ys)
  then show ?case by (simp add: replace_append replace_absent) (simp add: replace_def)
qed

lemma as_posix_join:
  assumes "rel \<noteq> []" and "\<forall>c\<in>set rel. sep fl \<notin> set c"
  shows "as_posix fl rel = join ''/'' rel"
  using assms by (simp add: as_posix_def str_path_def replace_join)

lemma rfind_ge: "- 1 \<le> rfind c xs"
  by (induction xs) (auto simp: Let_def)

lemma rfind_absent: "c \<notin> set xs \<Longrightarrow> rfind c xs = - 1"
  by (induction xs) (auto simp: Let_def)

lemma rfind_last: "c \<notin> set ys \<Longrightarrow> rfind c (xs @ c # ys) = int (length xs)"
  by (induction xs) (auto simp: Let_def rfind_absent)

lemma rfind_present: "c \<in> set xs \<Longrightarrow> 0 \<le> rfind c xs"
  by (induction xs) (auto simp: Let_def)

lemma rfind_decomp:
  "0 \<le> rfind c xs \<Longrightarrow> \<exists>ys zs. xs = ys @ c # zs \<and> c \<notin> set zs \<and> rfind c xs = int (length ys)"
proof -
  assume "0 \<le> rfind c xs"
  then have "c \<in> set xs" using rfind_absent[of c xs] by force
  then obtain ys zs where "xs = ys @ c # zs" "c \<notin> set zs"
    by (meson split_list_last)
  then show ?thesis using rfind_last by fastforce
qed

lemma suffix_ext:
  assumes "name p = stem @ CHR ''.'' # ext" "stem \<noteq> []" "ext \<noteq> []" "CHR ''.'' \<notin> set ext"
  shows "suffix p = CHR ''.'' # ext"
proof -
  have i: "rfind (CHR ''.'') (name p) = int (length stem)"
    using assms by (simp add: rfind_last)
  have "0 < length stem" "0 < length ext" using assms by auto
  then show ?thesis
    using assms(1) i by (simp add: suffix_def Let_def)
qed

lemma suffix_cases:
  "suffix p = [] \<or> (\<exists>stem ext. name p = stem @ CHR ''.'' # ext \<and> stem \<noteq> [] \<and> ext \<noteq> [] \<and> CHR ''.'' \<notin> set ext \<and> suffix p = CHR ''.'' # ext)"
proof (cases "0 < rfind (CHR ''.'') (name p) \<and> rfind (CHR ''.'') (name p) < int (length (name p)) - 1")
  case False
  then show ?thesis by (auto simp: suffix_def Let_def)
next
  case True
  then obtain ys zs where d: "name p = ys @ CHR ''.'' # zs" "CHR ''.'' \<notin> set zs"
      "rfind (CHR ''.'') (name p) = int (length ys)"
    using rfind_decomp[of "CHR ''.''" "name p"] by auto
  with True have "ys \<noteq> []" "zs \<noteq> []" by auto
  with d True show ?thesis by (auto simp: suffix_def Let_def)
qed

lemma name_append: "rel \<noteq> [] \<Longrightarrow> name (d @ rel) = name rel"
  by (simp add: name_def)

lemma suffix_append: "rel \<noteq> [] \<Longrightarrow> suffix (d @ rel) = suffix rel"
  by (simp add: suffix_def name_append)

section \<open>Properties of the upload loop\<close>

lemma key_append: "key fl prefix rel = prefix @ as_posix fl rel"
  by (simp add: key_def)

lemma key_join: "wf_rel fl rel \<Longrightarrow> key fl prefix rel = prefix @ join ''/'' rel"
  by (simp add: key_append as_posix_join wf_rel_def)

lemma upload_path_under:
  "upload_path w b pf (DIST_DIR (PROJECT_ROOT w) @ rel) =
     (case s3_upload_file w (str_path (flavour w) (anchor w) (DIST_DIR (PROJECT_ROOT w) @ rel)) b
             (key (flavour w) pf rel) (extra_args (DIST_DIR (PROJECT_ROOT w) @ rel)) of
        None \<Rightarrow>
          ([S3UploadFile (str_path (flavour w) (anchor w) (DIST_DIR (PROJECT_ROOT w) @ rel)) b
              (key (flavour w) pf rel) (extra_args (DIST_DIR (PROJECT_ROOT w) @ rel)),
            Print (''Uploaded s3://'' @ b @ ''/'' @ key (flavour w) pf rel)], None)
      | Some e \<Rightarrow>
          ([S3UploadFile (str_path (flavour w) (anchor w) (DIST_DIR (PROJECT_ROOT w) @ rel)) b
              (key (flavour w) pf rel) (extra_args (DIST_DIR (PROJECT_ROOT w) @ rel))],
           Some (upload_except (str_path (flavour w) (anchor w) (DIST_DIR (PROJECT_ROOT w) @ rel))
              (key (flavour w) pf rel) e)))"
  by (simp add: upload_path_def relative_to_append Let_def)

lemma upload_path_shape:
  "upload_path w b pf p = (t, r) \<Longrightarrow>
     (t = [] \<and> (\<exists>e. r = Some e)) \<or>
     (\<exists>f k x. s3_upload_file w f b k x = None \<and> t = [S3UploadFile f b k x, Print (''Uploaded s3://'' @ b @ ''/'' @ k)] \<and> r = None) \<or>
     (\<exists>f k x e. s3_upload_file w f b k x = Some e \<and> t = [S3UploadFile f b k x] \<and> r = Some (upload_except f k e))"
  by (auto simp: upload_path_def Let_def split: sum.splits option.splits)

lemma upload_loop_append:
  "upload_loop w b pf (xs @ ys) =
     (case upload_loop w b pf xs of
        (t, Some e) \<Rightarrow> (t, Some e)
      | (t, None) \<Rightarrow> (case upload_loop w b pf ys of (t', r) \<Rightarrow> (t @ t', r)))"
  by (induction xs) (auto split: prod.splits option.splits)

lemma upload_loop_no_invalidation:
  "filter is_invalidation (fst (upload_loop w b pf es)) = []"
proof (induction es)
  case Nil
  then show ?case by simp
next
  case (Cons a es)
  obtain p d where a: "a = (p, d)" by (cases a)
  obtain t r where u: "upload_path w b pf p = (t, r)" by (cases "upload_path w b pf p")
  from upload_path_shape[OF u] have "filter is_invalidation t = []" by auto
  with Cons a u show ?case by (auto split: prod.splits option.splits)
qed

lemma upload_loop_success:
  "snd (upload_loop w b pf es) = None \<Longrightarrow>
   S3UploadFile f b' k x \<in> set (fst (upload_loop w b pf es)) \<Longrightarrow>
   s3_upload_file w f b' k x = None"
proof (induction es)
  case Nil
  then show ?case by simp
next
  case (Cons a es)
  obtain p d where a: "a = (p, d)" by (cases a)
  obtain t r where u: "upload_path w b pf p = (t, r)" by (cases "upload_path w b pf p")
  from upload_path_shape[OF u] Cons a u show ?case
    by (auto split: prod.splits option.splits if_splits)
qed

lemma upload_loop_failure_last:
  "fst (upload_loop w b pf es) = t1 @ S3UploadFile f b' k x # t2 \<Longrightarrow>
   s3_upload_file w f b' k x = Some e \<Longrightarrow>
   t2 = [] \<and> snd (upload_loop w b pf es) = Some (upload_except f k e)"
proof (induction es arbitrary: t1)
  case Nil
  then show ?case by simp
next
  case (Cons a es)
  obtain p d where a: "a = (p, d)" by (cases a)
  obtain t r where u: "upload_path w b pf p = (t, r)" by (cases "upload_path w b pf p")
  obtain t' r' where l: "upload_loop w b pf es = (t', r')" by (cases "upload_loop w b pf es")
  show ?case
  proof (cases d)
    case True
    with Cons a show ?thesis by simp
  next
    case False
    from upload_path_shape[OF u] consider
        (err) "t = []" "\<exists>e. r = Some e"
      | (ok) f0 k0 x0 where "s3_upload_file w f0 b k0 x0 = None"
          "t = [S3UploadFile f0 b k0 x0, Print (''Uploaded s3://'' @ b @ ''/'' @ k0)]" "r = None"
      | (fail) f0 k0 x0 e0 where "s3_upload_file w f0 b k0 x0 = Some e0"
          "t = [S3UploadFile f0 b k0 x0]" "r = Some (upload_except f0 k0 e0)"
      by blast
    then show ?thesis
    proof cases
      case err
      with Cons.prems a u False show ?thesis by auto
    next
      case ok
      with Cons.prems a u l False
      have eq: "S3UploadFile f0 b k0 x0 # Print (''Uploaded s3://'' @ b @ ''/'' @ k0) # t' = t1 @ S3UploadFile f b' k x # t2"
        by simp
      show ?thesis
      proof (cases t1)
        case Nil
        with eq ok Cons.prems show ?thesis by simp
      next
        case (Cons c t1')
        with eq have eq2: "Print (''Uploaded s3://'' @ b @ ''/'' @ k0) # t' = t1' @ S3UploadFile f b' k x # t2" by simp
        then obtain t1'' where "t1' = Print (''Uploaded s3://'' @ b @ ''/'' @ k0) # t1''"
          by (cases t1') auto
        with eq2 have "fst (upload_loop w b pf es) = t1'' @ S3UploadFile f b' k x # t2"
          using l by simp
        from Cons.IH[OF this Cons.prems(2)] ok a u l False show ?thesis by simp
      qed
    next
      case fail
      with Cons.prems a u False have eq: "[S3UploadFile f0 b k0 x0] = t1 @ S3UploadFile f b' k x # t2"
        by simp
      then have "t1 = []" "t2 = []" "f0 = f" "k0 = k" "x0 = x" "b' = b"
        by (cases t1; simp)+
      with fail Cons.prems a u False show ?thesis by simp
    qed
  qed
qed

lemma upload_loop_events:
  "S3UploadFile f b' k x \<in> set (fst (upload_loop w b pf es)) \<Longrightarrow>
   \<exists>p rel. (p, False) \<in> set es \<and> relative_to p (DIST_DIR (PROJECT_ROOT w)) = Inr rel \<and>
     f = str_path (flavour w) (anchor w) p \<and> b' = b \<and> k = key (flavour w) pf rel \<and>
     x = extra_args p"
proof (induction es)
  case Nil
  then show ?case by simp
next
  case (Cons a es)
  obtain p d where a: "a = (p, d)" by (cases a)
  show ?case
  proof (cases d)
    case True
    with Cons a show ?thesis by auto
  next
    case False
    with Cons.prems a have
      "S3UploadFile f b' k x \<in> set (fst (upload_path w b pf p)) \<or>
       S3UploadFile f b' k x \<in> set (fst (upload_loop w b pf es))"
      by (auto split: prod.splits option.splits)
    then show ?thesis
    proof
      assume "S3UploadFile f b' k x \<in> set (fst (upload_path w b pf p))"
      then have "\<exists>rel. relative_to p (DIST_DIR (PROJECT_ROOT w)) = Inr rel \<and>
         f = str_path (flavour w) (anchor w) p \<and> b' = b \<and> k = key (flavour w) pf rel \<and>
         x = extra_args p"
        by (auto simp: upload_path_def Let_def split: sum.splits option.splits)
      with a False show ?thesis by auto
    next
      assume "S3UploadFile f b' k x \<in> set (fst (upload_loop w b pf es))"
      from Cons.IH[OF this] show ?thesis by auto
    qed
  qed
qed

lemma upload_loop_complete:
  "snd (upload_loop w b pf es) = None \<Longrightarrow> (p, False) \<in> set es \<Longrightarrow>
   relative_to p (DIST_DIR (PROJECT_ROOT w)) = Inr rel \<Longrightarrow>
   S3UploadFile (str_path (flavour w) (anchor w) p) b (key (flavour w) pf rel) (extra_args p)
     \<in> set (fst (upload_loop w b pf es))"
proof (induction es)
  case Nil
  then show ?case by simp
next
  case (Cons a es)
  obtain q d where a: "a = (q, d)" by (cases a)
  obtain t r where u: "upload_path w b pf q = (t, r)" by (cases "upload_path w b pf q")
  obtain t' r' where l: "upload_loop w b pf es = (t', r')" by (cases "upload_loop w b pf es")
  show ?case
  proof (cases d)
    case True
    with Cons a show ?thesis by auto
  next
    case False
    with Cons.prems(1) a u l have r: "r = None" "r' = None"
      by (auto split: option.splits)
    show ?thesis
    proof (cases "q = p")
      case True
      with u r Cons.prems(3) have
        "S3UploadFile (str_path (flavour w) (anchor w) p) b (key (flavour w) pf rel) (extra_args p) \<in> set t"
        by (auto simp: upload_path_def Let_def split: option.splits)
      with a u l False r show ?thesis by simp
    next
      case neq: False
      with Cons.prems(2) a have "(p, False) \<in> set es" by auto
      from Cons.IH[OF _ this Cons.prems(3)] l r a u False show ?thesis by simp
    qed
  qed
qed

lemma rglob_entry:
  "(p, d) \<in> set (rglob w) \<longleftrightarrow> (\<exists>rel. (rel, d) \<in> set (dist_listing w) \<and> p = DIST_DIR (PROJECT_ROOT w) @ rel)"
  by (auto simp: rglob_def)

lemma upload_directory_events:
  assumes "S3UploadFile f b' k x \<in> set (fst (upload_directory_to_s3 w b pf))"
  shows "\<exists>rel. (rel, False) \<in> set (dist_listing w) \<and>
     f = str_path (flavour w) (anchor w) (DIST_DIR (PROJECT_ROOT w) @ rel) \<and> b' = b \<and>
     k = key (flavour w) pf rel \<and> x = extra_args (DIST_DIR (PROJECT_ROOT w) @ rel)"
proof -
  from upload_loop_events[OF assms[unfolded upload_directory_to_s3_def]]
  obtain p rel where p: "(p, False) \<in> set (rglob w)"
      "relative_to p (DIST_DIR (PROJECT_ROOT w)) = Inr rel"
      "f = str_path (flavour w) (anchor w) p" "b' = b" "k = key (flavour w) pf rel"
      "x = extra_args p"
    by blast
  from p(1) obtain rel' where r: "(rel', False) \<in> set (dist_listing w)"
      "p = DIST_DIR (PROJECT_ROOT w) @ rel'"
    by (auto simp: rglob_entry)
  with p(2) have "rel' = rel" by (simp add: relative_to_append)
  with p r show ?thesis by auto
qed

lemma upload_directory_complete:
  assumes "snd (upload_directory_to_s3 w b pf) = None" "(rel, False) \<in> set (dist_listing w)"
  shows "S3UploadFile (str_path (flavour w) (anchor w) (DIST_DIR (PROJECT_ROOT w) @ rel)) b
           (key (flavour w) pf rel) (extra_args (DIST_DIR (PROJECT_ROOT w) @ rel))
         \<in> set (fst (upload_directory_to_s3 w b pf))"
proof -
  from assms(2) have "(DIST_DIR (PROJECT_ROOT w) @ rel, False) \<in> set (rglob w)"
    by (auto simp: rglob_entry)
  from upload_loop_complete[OF assms(1)[unfolded upload_directory_to_s3_def] this relative_to_append]
  show ?thesis by (simp add: upload_directory_to_s3_def)
qed

lemma suffix_DIST_DIR: "suffix (DIST_DIR root @ rel) = suffix rel"
  by (cases "rel = []") (simp_all add: suffix_append, simp add: DIST_DIR_def suffix_def name_def Let_def)

lemma extra_args_DIST_DIR: "extra_args (DIST_DIR root @ rel) = extra_args rel"
  by (simp add: extra_args_def suffix_DIST_DIR)

section \<open>Properties of the invalidation and of the entry point\<close>

lemma hexdigit_inj: "n < 16 \<Longrightarrow> m < 16 \<Longrightarrow> hexdigit n = hexdigit m \<Longrightarrow> n = m"
proof -
  have d: "distinct ''0123456789abcdef''" by simp
  assume "n < 16" "m < 16" "hexdigit n = hexdigit m"
  then show ?thesis
    unfolding hexdigit_def using nth_eq_iff_index_eq[OF d, of n m] by simp
qed

lemma byte_digits:
  fixes a b :: "8 word"
  assumes "unat a div 16 = unat b div 16" "unat a mod 16 = unat b mod 16"
  shows "a = b"
proof -
  have "unat a = 16 * (unat a div 16) + unat a mod 16" by simp
  also have "\<dots> = 16 * (unat b div 16) + unat b mod 16" using assms by simp
  also have "\<dots> = unat b" by simp
  finally show ?thesis by (simp add: word_unat_eq_iff)
qed

lemma unat_byte_lt: "unat (b :: 8 word) < 256"
  using unsigned_less[of b] by simp

lemma hex_byte_inj:
  fixes a b :: "8 word"
  assumes "hexdigit (unat a div 16) = hexdigit (unat b div 16)"
    and "hexdigit (unat a mod 16) = hexdigit (unat b mod 16)"
  shows "a = b"
proof -
  have "unat a div 16 < 16" "unat b div 16 < 16"
    using unat_byte_lt[of a] unat_byte_lt[of b] by simp_all
  then have 1: "unat a div 16 = unat b div 16" using assms(1) hexdigit_inj by blast
  have "unat a mod 16 < 16" "unat b mod 16 < 16" by simp_all
  then have 2: "unat a mod 16 = unat b mod 16" using assms(2) hexdigit_inj by blast
  from 1 2 show ?thesis by (rule byte_digits)
qed

lemma hex_Cons: "hex (b # bs) = hexdigit (unat b div 16) # hexdigit (unat b mod 16) # hex bs"
  by (simp add: hex_def)

lemma hex_Nil: "hex [] = []"
  by (simp add: hex_def)

lemma hex_inj: "hex bs = hex bs' \<Longrightarrow> bs = bs'"
proof (induction bs arbitrary: bs')
  case Nil
  then show ?case by (cases bs') (simp_all add: hex_Nil hex_Cons)
next
  case (Cons b bs)
  then obtain c cs where bs': "bs' = c # cs" by (cases bs') (simp_all add: hex_Nil hex_Cons)
  with Cons.prems have "hexdigit (unat b div 16) = hexdigit (unat c div 16)"
    "hexdigit (unat b mod 16) = hexdigit (unat c mod 16)" "hex bs = hex cs"
    by (simp_all add: hex_Cons)
  with Cons.IH[of cs] hex_byte_inj[of b c] bs' show ?case by simp
qed

lemma main_no_bucket:
  "environ w ''AWS_S3_BUCKET'' = None \<or> environ w ''AWS_S3_BUCKET'' = Some [] \<Longrightarrow>
   main w = ([], Some (SystemExit ''AWS_S3_BUCKET environment variable is required''))"
  by (auto simp: main_def)

lemma main_no_dist:
  "environ w ''AWS_S3_BUCKET'' = Some bucket \<Longrightarrow> bucket \<noteq> [] \<Longrightarrow> \<not> dist_exists w \<Longrightarrow>
   main w = ([], Some (SystemExit ''dist/ not found. Run `uv run build-site` first.''))"
  by (simp add: main_def)

lemma main_run:
  "environ w ''AWS_S3_BUCKET'' = Some bucket \<Longrightarrow> bucket \<noteq> [] \<Longrightarrow> dist_exists w \<Longrightarrow>
   main w =
     (case upload_directory_to_s3 w bucket (case environ w ''AWS_S3_PREFIX'' of None \<Rightarrow> [] | Some p \<Rightarrow> p) of
        (t, Some e) \<Rightarrow> (t, Some e)
      | (t, None) \<Rightarrow>
          (case invalidate_cloudfront w (environ w ''CLOUDFRONT_DIST_ID'') of (t', r) \<Rightarrow> (t @ t', r)))"
  by (simp add: main_def)

lemma main_cases:
  obtains (cfg) "fst (main w) = []"
  | (run) bucket where "environ w ''AWS_S3_BUCKET'' = Some bucket" "bucket \<noteq> []" "dist_exists w"
proof (cases "environ w ''AWS_S3_BUCKET''")
  case None
  then show ?thesis using main_no_bucket[of w] cfg by simp
next
  case (Some bucket)
  show ?thesis
  proof (cases "bucket = []")
    case True
    with Some have "fst (main w) = []" using main_no_bucket[of w] by simp
    then show ?thesis by (rule cfg)
  next
    case False
    show ?thesis
    proof (cases "dist_exists w")
      case True
      with Some False show ?thesis by (rule run)
    next
      case nd: False
      with Some False have "fst (main w) = []" using main_no_dist[of w bucket] by simp
      then show ?thesis by (rule cfg)
    qed
  qed
qed

lemma invalidate_no_upload: "S3UploadFile f b k x \<notin> set (fst (invalidate_cloudfront w d))"
  by (auto simp: invalidate_cloudfront_def Let_def split: option.splits sum.splits)

lemma invalidate_skip:
  "d = None \<or> d = Some [] \<Longrightarrow> invalidate_cloudfront w d = ([], None)"
  by (auto simp: invalidate_cloudfront_def)

lemma invalidate_once:
  "d \<noteq> [] \<Longrightarrow> filter is_invalidation (fst (invalidate_cloudfront w (Some d))) =
     [CloudFrontCreateInvalidation d 1 [''/*''] (''endodoncia-'' @ hex (urandom w 8))]"
  by (auto simp: invalidate_cloudfront_def Let_def split: sum.splits)

lemma upload_loop_all_ok:
  assumes "\<forall>(r, d)\<in>set pre. \<not> d \<longrightarrow>
      s3_upload_file w (source_path w r) b (key (flavour w) pf r)
        (extra_args (DIST_DIR (PROJECT_ROOT w) @ r)) = None"
  shows "upload_loop w b pf (map (\<lambda>(rel, d). (DIST_DIR (PROJECT_ROOT w) @ rel, d)) pre) =
     (concat (map (\<lambda>(r, d). if d then [] else [upload_call w b pf r, uploaded_line w b pf r]) pre), None)"
  using assms
proof (induction pre)
  case Nil
  then show ?case by simp
next
  case (Cons a pre)
  obtain r d where a: "a = (r, d)" by (cases a)
  from Cons.prems have rest: "\<forall>(r, d)\<in>set pre. \<not> d \<longrightarrow>
      s3_upload_file w (source_path w r) b (key (flavour w) pf r)
        (extra_args (DIST_DIR (PROJECT_ROOT w) @ r)) = None"
    by simp
  show ?case
  proof (cases d)
    case True
    with Cons.IH[OF rest] a show ?thesis by simp
  next
    case False
    with Cons.prems a have "s3_upload_file w (source_path w r) b (key (flavour w) pf r)
        (extra_args (DIST_DIR (PROJECT_ROOT w) @ r)) = None"
      by simp
    then have "upload_path w b pf (DIST_DIR (PROJECT_ROOT w) @ r) =
        ([upload_call w b pf r, uploaded_line w b pf r], None)"
      by (simp add: upload_path_under)
    with Cons.IH[OF rest] a False show ?thesis by simp
  qed
qed

lemma fail_fast_loop:
  assumes listing: "dist_listing w = pre @ (rel, False) # post"
    and ok: "\<forall>(r, d)\<in>set pre. \<not> d \<longrightarrow>
      s3_upload_file w (source_path w r) b (key (flavour w) pf r)
        (extra_args (DIST_DIR (PROJECT_ROOT w) @ r)) = None"
    and fail: "s3_upload_file w (source_path w rel) b (key (flavour w) pf rel)
        (extra_args (DIST_DIR (PROJECT_ROOT w) @ rel)) = Some e"
  shows "upload_directory_to_s3 w b pf =
     (concat (map (\<lambda>(r, d). if d then [] else [upload_call w b pf r, uploaded_line w b pf r]) pre)
        @ [upload_call w b pf rel],
      Some (upload_except (source_path w rel) (key (flavour w) pf rel) e))"
proof -
  have "upload_path w b pf (DIST_DIR (PROJECT_ROOT w) @ rel) =
      ([upload_call w b pf rel], Some (upload_except (source_path w rel) (key (flavour w) pf rel) e))"
    using fail by (simp add: upload_path_under)
  then show ?thesis
    unfolding upload_directory_to_s3_def rglob_def listing
    by (simp add: upload_loop_append upload_loop_all_ok[OF ok])
qed

lemma main_upload_failed:
  assumes "environ w ''AWS_S3_BUCKET'' = Some bucket" "bucket \<noteq> []" "dist_exists w"
    and "upload_directory_to_s3 w bucket (env_prefix w) = (t, Some e)"
  shows "main w = (t, Some e)"
  using assms by (simp add: main_run)

lemma main_upload_ok:
  assumes "environ w ''AWS_S3_BUCKET'' = Some bucket" "bucket \<noteq> []" "dist_exists w"
    and "upload_directory_to_s3 w bucket (env_prefix w) = (t, None)"
  shows "main w = (t @ fst (invalidate_cloudfront w (environ w ''CLOUDFRONT_DIST_ID'')),
                   snd (invalidate_cloudfront w (environ w ''CLOUDFRONT_DIST_ID'')))"
  using assms by (simp add: main_run split: prod.splits)

lemma main_upload_event:
  assumes "S3UploadFile f b k x \<in> set (fst (main w))" "s3_upload_file w f b k x = Some e"
  shows "snd (main w) = Some (upload_except f k e)"
proof (cases w rule: main_cases)
  case cfg
  with assms show ?thesis by simp
next
  case (run bucket)
  obtain t r where u: "upload_directory_to_s3 w bucket (env_prefix w) = (t, r)"
    by (cases "upload_directory_to_s3 w bucket (env_prefix w)")
  have inloop: "S3UploadFile f b k x \<in> set t"
  proof (cases r)
    case None
    with run u assms(1) invalidate_no_upload[of f b k x w "environ w ''CLOUDFRONT_DIST_ID''"]
    show ?thesis by (simp add: main_upload_ok)
  next
    case (Some e')
    with run u assms(1) show ?thesis by (simp add: main_upload_failed)
  qed
  then obtain t1 t2 where "t = t1 @ S3UploadFile f b k x # t2" by (meson split_list)
  with u have "fst (upload_loop w bucket (env_prefix w) (rglob w)) = t1 @ S3UploadFile f b k x # t2"
    by (simp add: upload_directory_to_s3_def)
  from upload_loop_failure_last[OF this assms(2)] u
  have "r = Some (upload_except f k e)" by (simp add: upload_directory_to_s3_def)
  with run u show ?thesis by (simp add: main_upload_failed)
qed

section \<open>Evaluation of concrete runs\<close>

lemmas eval_defs = main_def upload_directory_to_s3_def rglob_def DIST_DIR_def upload_path_def
  relative_to_def key_def as_posix_def str_path_def replace_def extra_args_def suffix_def name_def
  Let_def invalidate_cloudfront_def hex_def hexdigit_def upload_except_def invalidation_except_def
  wf_listing_def wf_rel_def

section \<open>The claims about deploy.py\<close>

text \<open>
  C1. For every regular file under the output root and every prefix, the key of the
  file is the prefix followed by the path of the file below the output root, its
  components joined by forward slashes, on either path flavour; with the empty
  prefix the key is that relative path itself.
\<close>

theorem C1_bucket_key:
  assumes "wf_listing w" and "(rel, False) \<in> set (dist_listing w)"
  shows "key (flavour w) prefix rel = prefix @ join ''/'' rel
    \<and> key (flavour w) [] rel = join ''/'' rel
    \<and> (\<exists>t. fst (upload_path w bucket prefix (DIST_DIR (PROJECT_ROOT w) @ rel)) =
          S3UploadFile (source_path w rel) bucket (prefix @ join ''/'' rel)
            (extra_args (DIST_DIR (PROJECT_ROOT w) @ rel)) # t)
    \<and> (snd (upload_directory_to_s3 w bucket prefix) = None \<longrightarrow>
          S3UploadFile (source_path w rel) bucket (prefix @ join ''/'' rel)
            (extra_args (DIST_DIR (PROJECT_ROOT w) @ rel))
          \<in> set (fst (upload_directory_to_s3 w bucket prefix)))
    \<and> (\<forall>f b k x. S3UploadFile f b k x \<in> set (fst (upload_directory_to_s3 w bucket prefix)) \<longrightarrow>
          (\<exists>r. (r, False) \<in> set (dist_listing w) \<and> f = source_path w r \<and>
               k = prefix @ join ''/'' r))"
proof -
  have wf: "wf_rel (flavour w) r" if "(r, d) \<in> set (dist_listing w)" for r d
    using assms(1) that unfolding wf_listing_def by blast
  have k: "key (flavour w) pf r = pf @ join ''/'' r" if "(r, d) \<in> set (dist_listing w)" for r d pf
    using wf[OF that] by (rule key_join)
  have 1: "key (flavour w) prefix rel = prefix @ join ''/'' rel" using k[OF assms(2)] .
  have 2: "key (flavour w) [] rel = join ''/'' rel" using k[OF assms(2), of "[]"] by simp
  have 3: "\<exists>t. fst (upload_path w bucket prefix (DIST_DIR (PROJECT_ROOT w) @ rel)) =
          S3UploadFile (source_path w rel) bucket (prefix @ join ''/'' rel)
            (extra_args (DIST_DIR (PROJECT_ROOT w) @ rel)) # t"
    unfolding upload_path_under 1 by (simp split: option.splits)
  have 4: "snd (upload_directory_to_s3 w bucket prefix) = None \<longrightarrow>
          S3UploadFile (source_path w rel) bucket (prefix @ join ''/'' rel)
            (extra_args (DIST_DIR (PROJECT_ROOT w) @ rel))
          \<in> set (fst (upload_directory_to_s3 w bucket prefix))"
    using upload_directory_complete[OF _ assms(2), of bucket prefix] 1 by simp
  have 5: "\<forall>f b k x. S3UploadFile f b k x \<in> set (fst (upload_directory_to_s3 w bucket prefix)) \<longrightarrow>
          (\<exists>r. (r, False) \<in> set (dist_listing w) \<and> f = source_path w r \<and>
               k = prefix @ join ''/'' r)"
  proof (intro allI impI)
    fix f b k x
    assume "S3UploadFile f b k x \<in> set (fst (upload_directory_to_s3 w bucket prefix))"
    from upload_directory_events[OF this] obtain r where
      "(r, False) \<in> set (dist_listing w)" "f = source_path w r" "k = key (flavour w) prefix r"
      by blast
    with k[of r False prefix] show "\<exists>r. (r, False) \<in> set (dist_listing w) \<and> f = source_path w r \<and>
               k = prefix @ join ''/'' r"
      by auto
  qed
  from 1 2 3 4 5 show ?thesis by blast
qed

theorem C1_bucket_key_witness:
  "wf_listing windows_world \<and> ([''a'', ''b.html''], False) \<in> set (dist_listing windows_world)
   \<and> key (flavour windows_world) ''site/'' [''a'', ''b.html''] = ''site/a/b.html''
   \<and> key (flavour windows_world) [] [''a'', ''b.html''] = ''a/b.html''
   \<and> S3UploadFile (source_path windows_world [''a'', ''b.html'']) ''bkt'' ''site/a/b.html''
        [(''ContentType'', ''text/html; charset=utf-8'')]
      \<in> set (fst (upload_directory_to_s3 windows_world ''bkt'' ''site/''))"
proof -
  have h1: "wf_listing windows_world"
    by (simp add: eval_defs windows_world_def site_world_def site_listing_def)
  have h2: "([''a'', ''b.html''], False) \<in> set (dist_listing windows_world)"
    by (simp add: eval_defs windows_world_def site_world_def site_listing_def)
  have ok: "snd (upload_directory_to_s3 windows_world ''bkt'' ''site/'') = None"
    by (simp add: eval_defs windows_world_def site_world_def site_listing_def)
  have x: "extra_args (DIST_DIR (PROJECT_ROOT windows_world) @ [''a'', ''b.html'']) =
      [(''ContentType'', ''text/html; charset=utf-8'')]"
    by (simp add: eval_defs windows_world_def site_world_def site_listing_def)
  from C1_bucket_key[OF h1 h2, of "''site/''" "''bkt''"] ok x h1 h2 show ?thesis
    by simp
qed

text \<open>
  C2. Every upload carries a content type chosen from the extension of the file
  alone: \<open>text/html; charset=utf-8\<close> for \<open>.html\<close>, \<open>text/css; charset=utf-8\<close> for
  \<open>.css\<close>, \<open>application/javascript; charset=utf-8\<close> for \<open>.js\<close>, and no
  \<open>ContentType\<close> entry for any other extension.
\<close>

theorem C2_content_type:
  assumes "S3UploadFile f b k x \<in> set (fst (upload_directory_to_s3 w bucket prefix))"
  shows "\<exists>rel. (rel, False) \<in> set (dist_listing w) \<and> f = source_path w rel
    \<and> x = (if suffix rel = ''.html'' then [(''ContentType'', ''text/html; charset=utf-8'')]
           else if suffix rel = ''.css'' then [(''ContentType'', ''text/css; charset=utf-8'')]
           else if suffix rel = ''.js'' then [(''ContentType'', ''application/javascript; charset=utf-8'')]
           else [])
    \<and> (\<forall>stem. stem \<noteq> [] \<and> name rel = stem @ ''.html'' \<longrightarrow>
           x = [(''ContentType'', ''text/html; charset=utf-8'')])
    \<and> (\<forall>stem. stem \<noteq> [] \<and> name rel = stem @ ''.css'' \<longrightarrow>
           x = [(''ContentType'', ''text/css; charset=utf-8'')])
    \<and> (\<forall>stem. stem \<noteq> [] \<and> name rel = stem @ ''.js'' \<longrightarrow>
           x = [(''ContentType'', ''application/javascript; charset=utf-8'')])
    \<and> (\<forall>stem. name rel = stem @ ''.json'' \<longrightarrow> x = [])"
proof -
  from upload_directory_events[OF assms] obtain rel where
    rel: "(rel, False) \<in> set (dist_listing w)" "f = source_path w rel"
      "x = extra_args (DIST_DIR (PROJECT_ROOT w) @ rel)"
    by blast
  have x: "x = extra_args rel" using rel(3) by (simp add: extra_args_DIST_DIR)
  have html: "suffix rel = ''.html''" if "stem \<noteq> []" "name rel = stem @ ''.html''" for stem
    using suffix_ext[of rel stem "''html''"] that by simp
  have css: "suffix rel = ''.css''" if "stem \<noteq> []" "name rel = stem @ ''.css''" for stem
    using suffix_ext[of rel stem "''css''"] that by simp
  have js: "suffix rel = ''.js''" if "stem \<noteq> []" "name rel = stem @ ''.js''" for stem
    using suffix_ext[of rel stem "''js''"] that by simp
  have json: "suffix rel = ''.json'' \<or> suffix rel = []" if "name rel = stem @ ''.json''" for stem
  proof (cases "stem = []")
    case True
    with that show ?thesis by (simp add: suffix_def Let_def)
  next
    case False
    then show ?thesis using suffix_ext[of rel stem "''json''"] that by simp
  qed
  have "x = (if suffix rel = ''.html'' then [(''ContentType'', ''text/html; charset=utf-8'')]
           else if suffix rel = ''.css'' then [(''ContentType'', ''text/css; charset=utf-8'')]
           else if suffix rel = ''.js'' then [(''ContentType'', ''application/javascript; charset=utf-8'')]
           else [])"
    unfolding x extra_args_def ..
  moreover have "\<forall>stem. stem \<noteq> [] \<and> name rel = stem @ ''.html'' \<longrightarrow>
           x = [(''ContentType'', ''text/html; charset=utf-8'')]"
  proof (intro allI impI, elim conjE)
    fix stem :: string
    assume "stem \<noteq> []" "name rel = stem @ ''.html''"
    from html[OF this] show "x = [(''ContentType'', ''text/html; charset=utf-8'')]"
      by (simp add: x extra_args_def)
  qed
  moreover have "\<forall>stem. stem \<noteq> [] \<and> name rel = stem @ ''.css'' \<longrightarrow>
           x = [(''ContentType'', ''text/css; charset=utf-8'')]"
  proof (intro allI impI, elim conjE)
    fix stem :: string
    assume "stem \<noteq> []" "name rel = stem @ ''.css''"
    from css[OF this] show "x = [(''ContentType'', ''text/css; charset=utf-8'')]"
      by (simp add: x extra_args_def)
  qed
  moreover have "\<forall>stem. stem \<noteq> [] \<and> name rel = stem @ ''.js'' \<longrightarrow>
           x = [(''ContentType'', ''application/javascript; charset=utf-8'')]"
  proof (intro allI impI, elim conjE)
    fix stem :: string
    assume "stem \<noteq> []" "name rel = stem @ ''.js''"
    from js[OF this] show "x = [(''ContentType'', ''application/javascript; charset=utf-8'')]"
      by (simp add: x extra_args_def)
  qed
  moreover have "\<forall>stem. name rel = stem @ ''.json'' \<longrightarrow> x = []"
  proof (intro allI impI)
    fix stem :: string
    assume "name rel = stem @ ''.json''"
    from json[OF this] show "x = []"
      by (auto simp: x extra_args_def)
  qed
  ultimately show ?thesis using rel(1,2) by blast
qed

theorem C2_content_type_witness:
  "S3UploadFile ''/srv/site/dist/styles.css'' ''bkt'' ''site/styles.css''
       [(''ContentType'', ''text/css; charset=utf-8'')]
     \<in> set (fst (upload_directory_to_s3 site_world ''bkt'' ''site/''))
   \<and> S3UploadFile ''/srv/site/dist/app.js'' ''bkt'' ''site/app.js''
       [(''ContentType'', ''application/javascript; charset=utf-8'')]
     \<in> set (fst (upload_directory_to_s3 site_world ''bkt'' ''site/''))
   \<and> S3UploadFile ''/srv/site/dist/data.json'' ''bkt'' ''site/data.json'' []
     \<in> set (fst (upload_directory_to_s3 site_world ''bkt'' ''site/''))
   \<and> (\<exists>rel. (rel, False) \<in> set (dist_listing site_world)
        \<and> ''/srv/site/dist/styles.css'' = source_path site_world rel
        \<and> suffix rel = ''.css'')"
proof -
  have ev: "S3UploadFile ''/srv/site/dist/styles.css'' ''bkt'' ''site/styles.css''
       [(''ContentType'', ''text/css; charset=utf-8'')]
     \<in> set (fst (upload_directory_to_s3 site_world ''bkt'' ''site/''))"
    by (simp add: eval_defs site_world_def site_listing_def)
  have ev2: "S3UploadFile ''/srv/site/dist/app.js'' ''bkt'' ''site/app.js''
       [(''ContentType'', ''application/javascript; charset=utf-8'')]
     \<in> set (fst (upload_directory_to_s3 site_world ''bkt'' ''site/''))"
    by (simp add: eval_defs site_world_def site_listing_def)
  have ev3: "S3UploadFile ''/srv/site/dist/data.json'' ''bkt'' ''site/data.json'' []
     \<in> set (fst (upload_directory_to_s3 site_world ''bkt'' ''site/''))"
    by (simp add: eval_defs site_world_def site_listing_def)
  from C2_content_type[OF ev] obtain rel where
    "(rel, False) \<in> set (dist_listing site_world)"
    "''/srv/site/dist/styles.css'' = source_path site_world rel"
    "[(''ContentType'', ''text/css; charset=utf-8'')] =
       (if suffix rel = ''.html'' then [(''ContentType'', ''text/html; charset=utf-8'')]
        else if suffix rel = ''.css'' then [(''ContentType'', ''text/css; charset=utf-8'')]
        else if suffix rel = ''.js'' then [(''ContentType'', ''application/javascript; charset=utf-8'')]
        else [])"
    by blast
  then have "(rel, False) \<in> set (dist_listing site_world)
        \<and> ''/srv/site/dist/styles.css'' = source_path site_world rel
        \<and> suffix rel = ''.css''"
    by (auto split: if_splits)
  with ev ev2 ev3 show ?thesis by blast
qed

text \<open>
  C3. The entry point stops with a SystemExit carrying a configuration message, and
  without any event at all (so without any network call), when \<open>AWS_S3_BUCKET\<close> is
  unset or empty and when \<open>dist/\<close> does not exist.
\<close>

theorem C3_configuration_errors:
  assumes "environ w ''AWS_S3_BUCKET'' = None \<or> environ w ''AWS_S3_BUCKET'' = Some []
    \<or> \<not> dist_exists w"
  shows "fst (main w) = [] \<and> filter is_network_call (fst (main w)) = []
    \<and> (snd (main w) = Some (SystemExit ''AWS_S3_BUCKET environment variable is required'')
       \<or> snd (main w) = Some (SystemExit ''dist/ not found. Run `uv run build-site` first.''))
    \<and> (environ w ''AWS_S3_BUCKET'' = None \<or> environ w ''AWS_S3_BUCKET'' = Some [] \<longrightarrow>
         snd (main w) = Some (SystemExit ''AWS_S3_BUCKET environment variable is required''))"
proof (cases "environ w ''AWS_S3_BUCKET'' = None \<or> environ w ''AWS_S3_BUCKET'' = Some []")
  case True
  from main_no_bucket[OF this] show ?thesis by simp
next
  case False
  then obtain bucket where "environ w ''AWS_S3_BUCKET'' = Some bucket" "bucket \<noteq> []" by auto
  moreover from False assms have "\<not> dist_exists w" by blast
  ultimately have "main w = ([], Some (SystemExit ''dist/ not found. Run `uv run build-site` first.''))"
    by (rule main_no_dist)
  with False show ?thesis by simp
qed

theorem C3_configuration_errors_witness:
  "environ no_bucket_world ''AWS_S3_BUCKET'' = None
   \<and> main no_bucket_world =
       ([], Some (SystemExit ''AWS_S3_BUCKET environment variable is required''))
   \<and> \<not> dist_exists no_dist_world
   \<and> main no_dist_world =
       ([], Some (SystemExit ''dist/ not found. Run `uv run build-site` first.''))"
proof -
  have h1: "environ no_bucket_world ''AWS_S3_BUCKET'' = None"
    by (simp add: eval_defs no_bucket_world_def no_dist_world_def site_world_def site_listing_def)
  have h2: "\<not> dist_exists no_dist_world"
    by (simp add: eval_defs no_bucket_world_def no_dist_world_def site_world_def site_listing_def)
  have b: "environ no_dist_world ''AWS_S3_BUCKET'' = Some ''bkt''"
    by (simp add: eval_defs no_bucket_world_def no_dist_world_def site_world_def site_listing_def)
  from h1 have "main no_bucket_world =
       ([], Some (SystemExit ''AWS_S3_BUCKET environment variable is required''))"
    using C3_configuration_errors[of no_bucket_world] by (simp add: prod_eq_iff)
  moreover from h2 b have "main no_dist_world =
       ([], Some (SystemExit ''dist/ not found. Run `uv run build-site` first.''))"
    using C3_configuration_errors[of no_dist_world] main_no_dist[of no_dist_world "''bkt''"] by simp
  ultimately show ?thesis using h1 h2 by simp
qed

text \<open>
  C9. The choice of the content type compares the extension with the lower-case
  literals exactly: a file whose extension is \<open>.html\<close>, \<open>.css\<close> or \<open>.js\<close> up to
  letter case, but not in that exact case, is uploaded without a \<open>ContentType\<close>
  entry.
\<close>

theorem C9_case_sensitive:
  assumes "lit \<in> {''.html'', ''.css'', ''.js''}"
    and "ascii_lower (suffix rel) = lit" and "suffix rel \<noteq> lit"
  shows "extra_args (DIST_DIR (PROJECT_ROOT w) @ rel) = []
    \<and> (\<exists>t. fst (upload_path w bucket prefix (DIST_DIR (PROJECT_ROOT w) @ rel)) =
          S3UploadFile (source_path w rel) bucket (key (flavour w) prefix rel) [] # t)
    \<and> ((rel, False) \<in> set (dist_listing w) \<and> snd (upload_directory_to_s3 w bucket prefix) = None
         \<longrightarrow> S3UploadFile (source_path w rel) bucket (key (flavour w) prefix rel) []
               \<in> set (fst (upload_directory_to_s3 w bucket prefix)))"
proof -
  have low: "ascii_lower ''.html'' = ''.html''" "ascii_lower ''.css'' = ''.css''"
    "ascii_lower ''.js'' = ''.js''"
    by (simp_all add: ascii_lower_def lower_char_def)
  have "suffix rel \<noteq> ''.html''" "suffix rel \<noteq> ''.css''" "suffix rel \<noteq> ''.js''"
    using assms low by auto
  then have e: "extra_args (DIST_DIR (PROJECT_ROOT w) @ rel) = []"
    unfolding extra_args_DIST_DIR by (simp add: extra_args_def)
  have u: "\<exists>t. fst (upload_path w bucket prefix (DIST_DIR (PROJECT_ROOT w) @ rel)) =
          S3UploadFile (source_path w rel) bucket (key (flavour w) prefix rel) [] # t"
    unfolding upload_path_under e by (simp split: option.splits)
  have c: "(rel, False) \<in> set (dist_listing w) \<and> snd (upload_directory_to_s3 w bucket prefix) = None
         \<longrightarrow> S3UploadFile (source_path w rel) bucket (key (flavour w) prefix rel) []
               \<in> set (fst (upload_directory_to_s3 w bucket prefix))"
    using upload_directory_complete[of w bucket prefix rel] e by auto
  from e u c show ?thesis by blast
qed

theorem C9_case_sensitive_witness:
  "''.html'' \<in> {''.html'', ''.css'', ''.js''}
   \<and> ascii_lower (suffix [''PAGE.HTML'']) = ''.html'' \<and> suffix [''PAGE.HTML''] = ''.HTML''
   \<and> S3UploadFile ''/srv/site/dist/PAGE.HTML'' ''bkt'' ''site/PAGE.HTML'' []
        \<in> set (fst (upload_directory_to_s3 site_world ''bkt'' ''site/''))"
proof -
  have h1: "''.html'' \<in> {''.html'', ''.css'', ''.js''}" by simp
  have s: "suffix [''PAGE.HTML''] = ''.HTML''"
    by (simp add: eval_defs site_world_def site_listing_def)
  have h2: "ascii_lower (suffix [''PAGE.HTML'']) = ''.html''"
    unfolding s by (simp add: ascii_lower_def lower_char_def)
  have h3: "suffix [''PAGE.HTML''] \<noteq> ''.html''" unfolding s by simp
  have l: "([''PAGE.HTML''], False) \<in> set (dist_listing site_world)"
    by (simp add: eval_defs site_world_def site_listing_def)
  have ok: "snd (upload_directory_to_s3 site_world ''bkt'' ''site/'') = None"
    by (simp add: eval_defs site_world_def site_listing_def)
  have sp: "source_path site_world [''PAGE.HTML''] = ''/srv/site/dist/PAGE.HTML''"
    by (simp add: eval_defs site_world_def site_listing_def)
  have k: "key (flavour site_world) ''site/'' [''PAGE.HTML''] = ''site/PAGE.HTML''"
    by (simp add: eval_defs site_world_def site_listing_def)
  from C9_case_sensitive[OF h1 h2 h3, of site_world "''bkt''" "''site/''"] l ok
  have "S3UploadFile (source_path site_world [''PAGE.HTML'']) ''bkt''
          (key (flavour site_world) ''site/'' [''PAGE.HTML'']) []
        \<in> set (fst (upload_directory_to_s3 site_world ''bkt'' ''site/''))"
    by blast
  then show ?thesis unfolding sp k using h1 h2 s by blast
qed

text \<open>
  C4, as the code has it. A run with a non-empty distribution identifier in which
  an upload fails requests no invalidation: the claim fails for it.
\<close>

theorem C4_counterexample:
  "environ upload_refused_world ''AWS_S3_BUCKET'' = Some ''bkt''
   \<and> dist_exists upload_refused_world
   \<and> environ upload_refused_world ''CLOUDFRONT_DIST_ID'' = Some ''E123''
   \<and> filter is_invalidation (fst (main upload_refused_world)) = []"
  by (simp add: eval_defs upload_refused_world_def site_world_def site_listing_def)

text \<open>
  C4, amended. In a run that reaches the invalidation step (bucket name given,
  \<open>dist/\<close> present, every upload succeeded): with the distribution identifier unset
  or empty no invalidation is requested and the run ends without an exception;
  with a non-empty identifier exactly one invalidation is requested, for the one
  path \<open>/*\<close>, with the caller reference \<open>endodoncia-\<close> followed by the hexadecimal
  digits of eight random bytes; that reference differs between two runs whenever
  their random bytes differ.
\<close>

theorem C4_invalidation:
  assumes "environ w ''AWS_S3_BUCKET'' = Some bucket" and "bucket \<noteq> []" and "dist_exists w"
    and "snd (upload_directory_to_s3 w bucket (env_prefix w)) = None"
  shows "(environ w ''CLOUDFRONT_DIST_ID'' = None \<or> environ w ''CLOUDFRONT_DIST_ID'' = Some [] \<longrightarrow>
            filter is_invalidation (fst (main w)) = [] \<and> snd (main w) = None)
    \<and> (\<forall>d. environ w ''CLOUDFRONT_DIST_ID'' = Some d \<and> d \<noteq> [] \<longrightarrow>
            filter is_invalidation (fst (main w)) =
              [CloudFrontCreateInvalidation d 1 [''/*''] (caller_reference w)])
    \<and> (\<forall>w'. caller_reference w = caller_reference w' \<longrightarrow> urandom w 8 = urandom w' 8)"
proof -
  obtain t where u: "upload_directory_to_s3 w bucket (env_prefix w) = (t, None)"
    using assms(4) by (cases "upload_directory_to_s3 w bucket (env_prefix w)") simp
  have t: "filter is_invalidation t = []"
    using upload_loop_no_invalidation[of w bucket "env_prefix w" "rglob w"] u
    by (simp add: upload_directory_to_s3_def)
  note m = main_upload_ok[OF assms(1-3) u]
  have 1: "environ w ''CLOUDFRONT_DIST_ID'' = None \<or> environ w ''CLOUDFRONT_DIST_ID'' = Some [] \<longrightarrow>
            filter is_invalidation (fst (main w)) = [] \<and> snd (main w) = None"
    using m t invalidate_skip[of "environ w ''CLOUDFRONT_DIST_ID''" w] by auto
  have 2: "\<forall>d. environ w ''CLOUDFRONT_DIST_ID'' = Some d \<and> d \<noteq> [] \<longrightarrow>
            filter is_invalidation (fst (main w)) =
              [CloudFrontCreateInvalidation d 1 [''/*''] (caller_reference w)]"
    using m t invalidate_once[of _ w] by auto
  have 3: "\<forall>w'. caller_reference w = caller_reference w' \<longrightarrow> urandom w 8 = urandom w' 8"
    using hex_inj by auto
  from 1 2 3 show ?thesis by blast
qed

theorem C4_invalidation_witness:
  "environ site_world ''AWS_S3_BUCKET'' = Some ''bkt'' \<and> dist_exists site_world
   \<and> snd (upload_directory_to_s3 site_world ''bkt'' (env_prefix site_world)) = None
   \<and> filter is_invalidation (fst (main site_world)) =
       [CloudFrontCreateInvalidation ''E123'' 1 [''/*''] ''endodoncia-deadbeef00017f80'']
   \<and> environ no_cdn_world ''CLOUDFRONT_DIST_ID'' = None
   \<and> filter is_invalidation (fst (main no_cdn_world)) = [] \<and> snd (main no_cdn_world) = None"
proof -
  have a: "environ site_world ''AWS_S3_BUCKET'' = Some ''bkt''" "''bkt'' \<noteq> []"
    "dist_exists site_world"
    "snd (upload_directory_to_s3 site_world ''bkt'' (env_prefix site_world)) = None"
    by (simp_all add: eval_defs no_cdn_world_def site_world_def site_listing_def)
  have d: "environ site_world ''CLOUDFRONT_DIST_ID'' = Some ''E123''"
    by (simp add: eval_defs no_cdn_world_def site_world_def site_listing_def)
  have r: "caller_reference site_world = ''endodoncia-deadbeef00017f80''"
    by (simp add: eval_defs no_cdn_world_def site_world_def site_listing_def)
  have b: "environ no_cdn_world ''AWS_S3_BUCKET'' = Some ''bkt''" "''bkt'' \<noteq> []"
    "dist_exists no_cdn_world"
    "snd (upload_directory_to_s3 no_cdn_world ''bkt'' (env_prefix no_cdn_world)) = None"
    by (simp_all add: eval_defs no_cdn_world_def site_world_def site_listing_def)
  have n: "environ no_cdn_world ''CLOUDFRONT_DIST_ID'' = None"
    by (simp add: eval_defs no_cdn_world_def site_world_def site_listing_def)
  from C4_invalidation[OF a] d r
  have 1: "filter is_invalidation (fst (main site_world)) =
       [CloudFrontCreateInvalidation ''E123'' 1 [''/*''] ''endodoncia-deadbeef00017f80'']"
    by simp
  from C4_invalidation[OF b] n
  have 2: "filter is_invalidation (fst (main no_cdn_world)) = [] \<and> snd (main no_cdn_world) = None"
    by blast
  from a 1 n 2 show ?thesis by blast
qed

text \<open>
  C5. Every failed upload should end the run with a RuntimeError that names the
  source path and the key: the handler around the upload is written for that. In
  the run below the upload of \<open>styles.css\<close> fails the way \<open>upload_file\<close> of boto3
  fails, with its S3UploadFailedError, which is not a ClientError. The handler
  does not match: the run stops there and ends with that exception itself, not
  with the RuntimeError of the handler.
\<close>

theorem C5_transfer_error_unconverted:
  "s3_upload_file transfer_error_world ''/srv/site/dist/styles.css'' ''bkt'' ''site/styles.css''
       [(''ContentType'', ''text/css; charset=utf-8'')] = Some (OtherException ''S3UploadFailedError'')
   \<and> main transfer_error_world =
       ([S3UploadFile ''/srv/site/dist/a/b.html'' ''bkt'' ''site/a/b.html''
           [(''ContentType'', ''text/html; charset=utf-8'')],
         Print ''Uploaded s3://bkt/site/a/b.html'',
         S3UploadFile ''/srv/site/dist/styles.css'' ''bkt'' ''site/styles.css''
           [(''ContentType'', ''text/css; charset=utf-8'')]],
        Some (OtherException ''S3UploadFailedError''))
   \<and> snd (main transfer_error_world) \<noteq> Some (RuntimeError
        ''Failed to upload /srv/site/dist/styles.css -> site/styles.css: S3UploadFailedError'')"
  by (simp add: eval_defs transfer_error_world_def site_world_def site_listing_def)

text \<open>
  C6, as the code has it. An invalidation request that fails with an exception
  other than a ClientError is not wrapped: the run ends with that exception itself.
\<close>

theorem C6_counterexample:
  "cf_create_invalidation cdn_unreachable_world ''E123'' 1 [''/*'']
       (caller_reference cdn_unreachable_world) = Inl (OtherException ''EndpointConnectionError'')
   \<and> CloudFrontCreateInvalidation ''E123'' 1 [''/*''] (caller_reference cdn_unreachable_world)
       \<in> set (fst (main cdn_unreachable_world))
   \<and> snd (main cdn_unreachable_world) = Some (OtherException ''EndpointConnectionError'')"
  by (simp add: eval_defs cdn_unreachable_world_def site_world_def site_listing_def)

text \<open>
  C6, amended. When the invalidation request of a run fails, the run ends with an
  exception: with a RuntimeError \<open>Failed to create invalidation: ...\<close> when the
  request fails with a ClientError, with the exception itself otherwise. The events
  of the run are those of the completed uploads followed by the invalidation
  request and nothing else: no upload is undone.
\<close>

theorem C6_invalidation_failure:
  assumes "environ w ''AWS_S3_BUCKET'' = Some bucket" and "bucket \<noteq> []" and "dist_exists w"
    and "upload_directory_to_s3 w bucket (env_prefix w) = (t, None)"
    and "environ w ''CLOUDFRONT_DIST_ID'' = Some d" and "d \<noteq> []"
    and "cf_create_invalidation w d 1 [''/*''] (caller_reference w) = Inl e"
  shows "fst (main w) = t @ [CloudFrontCreateInvalidation d 1 [''/*''] (caller_reference w)]
    \<and> snd (main w) \<noteq> None
    \<and> (\<forall>m. e = ClientError m \<longrightarrow>
          snd (main w) = Some (RuntimeError (''Failed to create invalidation: '' @ m)))
    \<and> ((\<forall>m. e \<noteq> ClientError m) \<longrightarrow> snd (main w) = Some e)"
proof -
  have i: "invalidate_cloudfront w (Some d) =
      ([CloudFrontCreateInvalidation d 1 [''/*''] (caller_reference w)], Some (invalidation_except e))"
    using assms(6,7) by (simp add: invalidate_cloudfront_def Let_def)
  from main_upload_ok[OF assms(1-4)] assms(5) i
  have m: "main w = (t @ [CloudFrontCreateInvalidation d 1 [''/*''] (caller_reference w)],
      Some (invalidation_except e))"
    by simp
  have 3: "(\<forall>m. e \<noteq> ClientError m) \<longrightarrow> invalidation_except e = e"
    by (cases e) (simp_all add: invalidation_except_def)
  from m 3 show ?thesis by (simp add: invalidation_except_def)
qed

theorem C6_invalidation_failure_witness:
  "environ cdn_refused_world ''AWS_S3_BUCKET'' = Some ''bkt'' \<and> dist_exists cdn_refused_world
   \<and> environ cdn_refused_world ''CLOUDFRONT_DIST_ID'' = Some ''E123''
   \<and> cf_create_invalidation cdn_refused_world ''E123'' 1 [''/*'']
        (caller_reference cdn_refused_world) = Inl (ClientError ''NoSuchDistribution'')
   \<and> fst (main cdn_refused_world) =
        fst (upload_directory_to_s3 cdn_refused_world ''bkt'' ''site/'')
        @ [CloudFrontCreateInvalidation ''E123'' 1 [''/*''] (caller_reference cdn_refused_world)]
   \<and> length (filter is_upload (fst (main cdn_refused_world))) = 5
   \<and> snd (main cdn_refused_world) =
        Some (RuntimeError ''Failed to create invalidation: NoSuchDistribution'')"
proof -
  have a: "environ cdn_refused_world ''AWS_S3_BUCKET'' = Some ''bkt''" "''bkt'' \<noteq> []"
    "dist_exists cdn_refused_world"
    by (simp_all add: eval_defs cdn_refused_world_def site_world_def site_listing_def)
  have p: "env_prefix cdn_refused_world = ''site/''"
    by (simp add: eval_defs cdn_refused_world_def site_world_def site_listing_def)
  have u: "upload_directory_to_s3 cdn_refused_world ''bkt'' (env_prefix cdn_refused_world) =
      (fst (upload_directory_to_s3 cdn_refused_world ''bkt'' ''site/''), None)"
    unfolding p by (simp add: eval_defs cdn_refused_world_def site_world_def site_listing_def)
  have d: "environ cdn_refused_world ''CLOUDFRONT_DIST_ID'' = Some ''E123''" "''E123'' \<noteq> []"
    by (simp_all add: eval_defs cdn_refused_world_def site_world_def site_listing_def)
  have c: "cf_create_invalidation cdn_refused_world ''E123'' 1 [''/*'']
        (caller_reference cdn_refused_world) = Inl (ClientError ''NoSuchDistribution'')"
    by (simp add: eval_defs cdn_refused_world_def site_world_def site_listing_def)
  have n: "length (filter is_upload (fst (upload_directory_to_s3 cdn_refused_world ''bkt'' ''site/''))) = 5"
    by (simp add: eval_defs cdn_refused_world_def site_world_def site_listing_def)
  from C6_invalidation_failure[OF a u d c] n a d c show ?thesis by simp
qed

text \<open>
  C10. The publisher stops at the first upload that fails: with the files before
  it uploaded, the run consists of their uploads followed by the failing call and
  of nothing else, whatever is enumerated after it; the run ends with the
  exception of that upload (the RuntimeError, for a ClientError), and it requests
  no invalidation.
\<close>

theorem C10_fail_fast:
  assumes "environ w ''AWS_S3_BUCKET'' = Some bucket" and "bucket \<noteq> []" and "dist_exists w"
    and "dist_listing w = pre @ (rel, False) # post"
    and "\<forall>(r, d)\<in>set pre. \<not> d \<longrightarrow>
      s3_upload_file w (source_path w r) bucket (key (flavour w) (env_prefix w) r)
        (extra_args (DIST_DIR (PROJECT_ROOT w) @ r)) = None"
    and "s3_upload_file w (source_path w rel) bucket (key (flavour w) (env_prefix w) rel)
        (extra_args (DIST_DIR (PROJECT_ROOT w) @ rel)) = Some e"
  shows "fst (main w) =
      concat (map (\<lambda>(r, d). if d then []
                     else [upload_call w bucket (env_prefix w) r,
                           uploaded_line w bucket (env_prefix w) r]) pre)
      @ [upload_call w bucket (env_prefix w) rel]
    \<and> snd (main w) =
        Some (upload_except (source_path w rel) (key (flavour w) (env_prefix w) rel) e)
    \<and> (\<forall>m. e = ClientError m \<longrightarrow> snd (main w) = Some (RuntimeError
          (''Failed to upload '' @ source_path w rel @ '' -> '' @ key (flavour w) (env_prefix w) rel
             @ '': '' @ m)))
    \<and> filter is_invalidation (fst (main w)) = []"
proof -
  note u = fail_fast_loop[OF assms(4,5,6)]
  note m = main_upload_failed[OF assms(1-3) u]
  have "filter is_invalidation (fst (upload_directory_to_s3 w bucket (env_prefix w))) = []"
    unfolding upload_directory_to_s3_def by (rule upload_loop_no_invalidation)
  then have "filter is_invalidation (fst (main w)) = []" using m u by simp
  with m show ?thesis by (simp add: upload_except_def)
qed

theorem C10_fail_fast_witness:
  "environ upload_refused_world ''AWS_S3_BUCKET'' = Some ''bkt'' \<and> dist_exists upload_refused_world
   \<and> dist_listing upload_refused_world =
        [([''a''], True), ([''a'', ''b.html''], False)] @ ([''styles.css''], False)
          # [([''app.js''], False), ([''data.json''], False), ([''PAGE.HTML''], False)]
   \<and> main upload_refused_world =
       ([S3UploadFile ''/srv/site/dist/a/b.html'' ''bkt'' ''site/a/b.html''
           [(''ContentType'', ''text/html; charset=utf-8'')],
         Print ''Uploaded s3://bkt/site/a/b.html'',
         S3UploadFile ''/srv/site/dist/styles.css'' ''bkt'' ''site/styles.css''
           [(''ContentType'', ''text/css; charset=utf-8'')]],
        Some (RuntimeError
          ''Failed to upload /srv/site/dist/styles.css -> site/styles.css: AccessDenied''))"
proof -
  have a: "environ upload_refused_world ''AWS_S3_BUCKET'' = Some ''bkt''" "''bkt'' \<noteq> []"
    "dist_exists upload_refused_world"
    by (simp_all add: eval_defs upload_refused_world_def site_world_def site_listing_def)
  have l: "dist_listing upload_refused_world =
        [([''a''], True), ([''a'', ''b.html''], False)] @ ([''styles.css''], False)
          # [([''app.js''], False), ([''data.json''], False), ([''PAGE.HTML''], False)]"
    by (simp add: eval_defs upload_refused_world_def site_world_def site_listing_def)
  have ok: "\<forall>(r, d)\<in>set [([''a''], True), ([''a'', ''b.html''], False)]. \<not> d \<longrightarrow>
      s3_upload_file upload_refused_world (source_path upload_refused_world r) ''bkt''
        (key (flavour upload_refused_world) (env_prefix upload_refused_world) r)
        (extra_args (DIST_DIR (PROJECT_ROOT upload_refused_world) @ r)) = None"
    by (simp add: eval_defs upload_refused_world_def site_world_def site_listing_def)
  have f: "s3_upload_file upload_refused_world (source_path upload_refused_world [''styles.css''])
        ''bkt'' (key (flavour upload_refused_world) (env_prefix upload_refused_world) [''styles.css''])
        (extra_args (DIST_DIR (PROJECT_ROOT upload_refused_world) @ [''styles.css'']))
      = Some (ClientError ''AccessDenied'')"
    by (simp add: eval_defs upload_refused_world_def site_world_def site_listing_def)
  have v: "concat (map (\<lambda>(r, d). if d then []
                     else [upload_call upload_refused_world ''bkt'' (env_prefix upload_refused_world) r,
                           uploaded_line upload_refused_world ''bkt'' (env_prefix upload_refused_world) r])
               [([''a''], True), ([''a'', ''b.html''], False)])
      @ [upload_call upload_refused_world ''bkt'' (env_prefix upload_refused_world) [''styles.css'']]
      = [S3UploadFile ''/srv/site/dist/a/b.html'' ''bkt'' ''site/a/b.html''
           [(''ContentType'', ''text/html; charset=utf-8'')],
         Print ''Uploaded s3://bkt/site/a/b.html'',
         S3UploadFile ''/srv/site/dist/styles.css'' ''bkt'' ''site/styles.css''
           [(''ContentType'', ''text/css; charset=utf-8'')]]"
    by (simp add: eval_defs upload_refused_world_def site_world_def site_listing_def)
  have x: "upload_except (source_path upload_refused_world [''styles.css''])
        (key (flavour upload_refused_world) (env_prefix upload_refused_world) [''styles.css''])
        (ClientError ''AccessDenied'')
      = RuntimeError ''Failed to upload /srv/site/dist/styles.css -> site/styles.css: AccessDenied''"
    by (simp add: eval_defs upload_refused_world_def site_world_def site_listing_def)
  from C10_fail_fast[OF a l ok f]
  have "fst (main upload_refused_world) =
       [S3UploadFile ''/srv/site/dist/a/b.html'' ''bkt'' ''site/a/b.html''
           [(''ContentType'', ''text/html; charset=utf-8'')],
         Print ''Uploaded s3://bkt/site/a/b.html'',
         S3UploadFile ''/srv/site/dist/styles.css'' ''bkt'' ''site/styles.css''
           [(''ContentType'', ''text/css; charset=utf-8'')]]
     \<and> snd (main upload_refused_world) = Some (RuntimeError
          ''Failed to upload /srv/site/dist/styles.css -> site/styles.css: AccessDenied'')"
    unfolding v x by blast
  with a l show ?thesis by (simp add: prod_eq_iff)
qed

section \<open>The claim about serve.py\<close>







end
